theory Spec2Isabelle
  imports Main
begin

section \<open>The state machine of src/util.js\<close>

text \<open>
  The theory embeds the classes \<^verbatim>\<open>StateMachine\<close> and \<^verbatim>\<open>State\<close> of
  \<^verbatim>\<open>src/util.js\<close>.

  \<^item> State keys are strings; the JavaScript value \<^verbatim>\<open>null\<close> is \<open>None\<close>.
    The registry \<^verbatim>\<open>possibleStates\<close> is an object created as \<^verbatim>\<open>{}\<close>: a map
    from its own keys to state objects, together with the properties it
    inherits from \<^verbatim>\<open>Object.prototype\<close>. A property access and the operator
    \<^verbatim>\<open>in\<close> turn \<^verbatim>\<open>null\<close> into the key \<^verbatim>\<open>'null'\<close>; \<^verbatim>\<open>in\<close> also finds
    the inherited names, whose values have none of the methods of a state,
    so that a call of one throws a \<^verbatim>\<open>TypeError\<close>.
  \<^item> The methods of a state object are user code. A call of one is recorded as
    an event of the machine's trace; what the method may do to the machine is
    a field of the state object: the callbacks it queues with
    \<^verbatim>\<open>nextStep\<close> and, for \<^verbatim>\<open>execute\<close>, the value it returns (a string or
    nothing). The methods do not throw, and the promises they return are
    fulfilled. A queued callback and the four optional callbacks of a
    transition are opaque: a call of one is an event and nothing else.
  \<^item> The arguments of a step are numbers (a time and a delta).
  \<^item> \<^verbatim>\<open>transition\<close> is an \<^verbatim>\<open>async\<close> function. It runs synchronously up to
    its first \<^verbatim>\<open>await\<close>, where it is suspended and control goes back to
    the caller; the rest runs when the awaited value has settled. A suspended
    call is a task of the field \<open>suspended\<close>, which records the
    \<^verbatim>\<open>await\<close> it stopped at; \<open>resume\<close> runs one task up to its next
    \<^verbatim>\<open>await\<close>. An error thrown inside an \<^verbatim>\<open>async\<close> function rejects the
    promise it returned instead of reaching the caller.
\<close>

subsection \<open>Data\<close>

type_synonym val = nat

type_synonym callback = nat

record State =
  initialized :: bool
  init :: "callback list"
  handleEntered :: "callback list"
  handleExited :: "callback list"
  execute :: "callback list \<times> string option"

datatype error = InvalidState "string option" | EmptyStack | TypeError

datatype event =
    EvInit string
  | EvHandleEntered string
  | EvHandleExited string
  | EvExecute string
  | EvPreExit
  | EvPostExit
  | EvPreEnter
  | EvPostEnter
  | EvCallback callback "val list"
  | EvEmit nat
  | EvResolve nat
  | EvRejected error

record options =
  preExit :: bool
  postExit :: bool
  preEnter :: bool
  postEnter :: bool

datatype await_point =
  AwPreExit | AwHandleExited | AwPostExit | AwPreEnter | AwHandleEntered | AwPostEnter

text \<open>A suspended call of \<^verbatim>\<open>transition\<close>: the \<^verbatim>\<open>await\<close> it stopped at and
  its local variables (\<^verbatim>\<open>stateObj\<close> is assigned at line 95).\<close>

record task =
  point :: await_point
  newState :: "string option"
  opts :: options
  stateObj :: "State option"

datatype seg_result = Await task | Return | Throw error

datatype outcome = Pending | Fulfilled | Rejected error

record StateMachine =
  initialState :: string
  possibleStates :: "string \<rightharpoonup> State"
  stateArgs :: "val list"
  state :: "string option"
  nextStepCallbacks :: "callback list"
  stateStack :: "string option list"
  transitioning :: bool
  listeners :: "nat list"
  trace :: "event list"
  suspended :: "task list"

text \<open>The constructor (lines 4-15): it stores its arguments and calls no method
  of a state. \<^verbatim>\<open>addStates\<close> merges the given states into the registry.\<close>

definition addStates :: "(string \<rightharpoonup> State) \<Rightarrow> StateMachine \<Rightarrow> StateMachine" where
  "addStates states m = m\<lparr>possibleStates := possibleStates m ++ states\<rparr>"

definition new_StateMachine ::
  "string \<Rightarrow> (string \<rightharpoonup> State) \<Rightarrow> val list \<Rightarrow> StateMachine" where
  "new_StateMachine initial states args =
     addStates states
       \<lparr>initialState = initial, possibleStates = Map.empty, stateArgs = args,
        state = None, nextStepCallbacks = [], stateStack = [],
        transitioning = False, listeners = [], trace = [], suspended = []\<rparr>"

text \<open>JavaScript truthiness of a key or of \<^verbatim>\<open>null\<close>/\<^verbatim>\<open>undefined\<close>: the empty
  string is falsy.\<close>

definition truthy :: "string option \<Rightarrow> bool" where
  "truthy k = (case k of None \<Rightarrow> False | Some s \<Rightarrow> s \<noteq> [])"

text \<open>The property name that a key or \<^verbatim>\<open>null\<close> stands for, and the names that
  an object inherits from \<^verbatim>\<open>Object.prototype\<close>.\<close>

definition prop_key :: "string option \<Rightarrow> string" where
  "prop_key k = (case k of None \<Rightarrow> ''null'' | Some s \<Rightarrow> s)"

definition object_prototype :: "string list" where
  "object_prototype =
     [''constructor'', ''__defineGetter__'', ''__defineSetter__'', ''hasOwnProperty'',
      ''__lookupGetter__'', ''__lookupSetter__'', ''isPrototypeOf'',
      ''propertyIsEnumerable'', ''toString'', ''valueOf'', ''__proto__'',
      ''toLocaleString'']"

text \<open>\<^verbatim>\<open>k in this.possibleStates\<close> (line 82): an own key or an inherited name.\<close>

definition registered :: "string option \<Rightarrow> StateMachine \<Rightarrow> bool" where
  "registered k m =
     (possibleStates m (prop_key k) \<noteq> None \<or> prop_key k \<in> set object_prototype)"

text \<open>\<^verbatim>\<open>this.possibleStates[k]\<close> as a state object: \<open>None\<close> is \<^verbatim>\<open>undefined\<close> or
  an inherited value, on both of which a call of a method of a state throws
  a \<^verbatim>\<open>TypeError\<close>.\<close>

definition lookup :: "string option \<Rightarrow> StateMachine \<Rightarrow> State option" where
  "lookup k m = possibleStates m (prop_key k)"

definition currentState :: "StateMachine \<Rightarrow> State option" where
  "currentState m = lookup (state m) m"

definition log :: "event \<Rightarrow> StateMachine \<Rightarrow> StateMachine" where
  "log e m = m\<lparr>trace := trace m @ [e]\<rparr>"

definition nextStep :: "callback \<Rightarrow> StateMachine \<Rightarrow> StateMachine" where
  "nextStep c m = m\<lparr>nextStepCallbacks := nextStepCallbacks m @ [c]\<rparr>"

text \<open>A call of a method of a state object: the event, then the callbacks the
  method queues.\<close>

definition call_hook :: "event \<Rightarrow> callback list \<Rightarrow> StateMachine \<Rightarrow> StateMachine" where
  "call_hook e cbs m = (log e m)\<lparr>nextStepCallbacks := nextStepCallbacks m @ cbs\<rparr>"

subsection \<open>transition (lines 78-105)\<close>

text \<open>The body of \<^verbatim>\<open>transition\<close>, cut at its \<^verbatim>\<open>await\<close>s; \<open>from_N\<close> is
  the code from line N to the next \<^verbatim>\<open>await\<close> or to the end.\<close>

definition from_104 :: "task \<Rightarrow> StateMachine \<Rightarrow> StateMachine \<times> seg_result" where
  "from_104 t m = (m\<lparr>transitioning := False\<rparr>, Return)"

definition from_102 :: "task \<Rightarrow> StateMachine \<Rightarrow> StateMachine \<times> seg_result" where
  "from_102 t m =
     (if postEnter (opts t) then (log EvPostEnter m, Await (t\<lparr>point := AwPostEnter\<rparr>))
      else from_104 t m)"

definition from_101 :: "task \<Rightarrow> StateMachine \<Rightarrow> StateMachine \<times> seg_result" where
  "from_101 t m =
     (case stateObj t of
        None \<Rightarrow> (m, Throw TypeError)
      | Some obj \<Rightarrow>
          (call_hook (EvHandleEntered (prop_key (newState t))) (handleEntered obj) m,
           Await (t\<lparr>point := AwHandleEntered\<rparr>)))"

definition from_100 :: "task \<Rightarrow> StateMachine \<Rightarrow> StateMachine \<times> seg_result" where
  "from_100 t m =
     (if preEnter (opts t) then (log EvPreEnter m, Await (t\<lparr>point := AwPreEnter\<rparr>))
      else from_101 t m)"

definition from_93 :: "task \<Rightarrow> StateMachine \<Rightarrow> StateMachine \<times> seg_result" where
  "from_93 t m =
     (let m1 = m\<lparr>state := newState t\<rparr> in
      case lookup (state m1) m1 of
        None \<Rightarrow> (m1, Throw TypeError)
      | Some obj \<Rightarrow>
          let m2 = (if \<not> initialized obj
                    then (call_hook (EvInit (prop_key (newState t))) (init obj) m1)
                           \<lparr>possibleStates :=
                              (possibleStates m1)
                                (prop_key (newState t) \<mapsto> obj\<lparr>initialized := True\<rparr>)\<rparr>
                    else m1)
          in from_100 (t\<lparr>stateObj := Some obj\<rparr>) m2)"

definition from_91 :: "task \<Rightarrow> StateMachine \<Rightarrow> StateMachine \<times> seg_result" where
  "from_91 t m =
     (if postExit (opts t) then (log EvPostExit m, Await (t\<lparr>point := AwPostExit\<rparr>))
      else from_93 t m)"

definition from_90 :: "task \<Rightarrow> StateMachine \<Rightarrow> StateMachine \<times> seg_result" where
  "from_90 t m =
     (case lookup (state m) m of
        None \<Rightarrow> (m, Throw TypeError)
      | Some obj \<Rightarrow>
          (call_hook (EvHandleExited (prop_key (state m))) (handleExited obj) m,
           Await (t\<lparr>point := AwHandleExited\<rparr>)))"

definition from_88 :: "task \<Rightarrow> StateMachine \<Rightarrow> StateMachine \<times> seg_result" where
  "from_88 t m =
     (if truthy (state m)
      then (if preExit (opts t) then (log EvPreExit m, Await (t\<lparr>point := AwPreExit\<rparr>))
            else from_90 t m)
      else from_93 t m)"

text \<open>Lines 82-86: the check of the name, which throws before
  \<^verbatim>\<open>transitioning\<close> is set.\<close>

definition from_82 :: "string option \<Rightarrow> options \<Rightarrow> StateMachine \<Rightarrow> StateMachine \<times> seg_result" where
  "from_82 ns os m =
     (if \<not> registered ns m then (m, Throw (InvalidState ns))
      else from_88 \<lparr>point = AwPreExit, newState = ns, opts = os, stateObj = None\<rparr>
             (m\<lparr>transitioning := True\<rparr>))"

text \<open>What runs when the value awaited at a point has settled.\<close>

definition continue :: "task \<Rightarrow> StateMachine \<Rightarrow> StateMachine \<times> seg_result" where
  "continue t m =
     (case point t of
        AwPreExit \<Rightarrow> from_90 t m
      | AwHandleExited \<Rightarrow> from_91 t m
      | AwPostExit \<Rightarrow> from_93 t m
      | AwPreEnter \<Rightarrow> from_101 t m
      | AwHandleEntered \<Rightarrow> from_102 t m
      | AwPostEnter \<Rightarrow> from_104 t m)"

text \<open>A call of \<^verbatim>\<open>transition\<close>: the machine when control is back at the caller,
  and the state of the promise returned.\<close>

definition transition ::
  "string option \<Rightarrow> options \<Rightarrow> StateMachine \<Rightarrow> StateMachine \<times> outcome" where
  "transition ns os m =
     (case from_82 ns os m of
        (m1, Await t) \<Rightarrow> (m1\<lparr>suspended := suspended m1 @ [t]\<rparr>, Pending)
      | (m1, Return) \<Rightarrow> (m1, Fulfilled)
      | (m1, Throw e) \<Rightarrow> (m1, Rejected e))"

text \<open>The callers in this file drop the promise; a rejection is then an
  unhandled one, kept in the trace.\<close>

definition dropped :: "StateMachine \<times> outcome \<Rightarrow> StateMachine" where
  "dropped r = (case r of (m, Rejected e) \<Rightarrow> log (EvRejected e) m | (m, _) \<Rightarrow> m)"

text \<open>The \<open>i\<close>-th suspended call goes on to its next \<^verbatim>\<open>await\<close>.\<close>

definition resume :: "nat \<Rightarrow> StateMachine \<Rightarrow> StateMachine" where
  "resume i m =
     (if i < length (suspended m)
      then (case continue (suspended m ! i)
                   (m\<lparr>suspended := take i (suspended m) @ drop (Suc i) (suspended m)\<rparr>) of
              (m1, Await t) \<Rightarrow> m1\<lparr>suspended := suspended m1 @ [t]\<rparr>
            | (m1, Return) \<Rightarrow> m1
            | (m1, Throw e) \<Rightarrow> log (EvRejected e) m1)
      else m)"


text \<open>The queue of suspended calls is run in order, for at most \<open>n\<close> turns:
  the order of the microtask queue when no awaited value is a promise that
  is still pending.\<close>

fun drain :: "nat \<Rightarrow> StateMachine \<Rightarrow> StateMachine" where
  "drain 0 m = m"
| "drain (Suc n) m = (if suspended m = [] then m else drain n (resume 0 m))"

definition no_options :: options where
  "no_options = \<lparr>preExit = False, postExit = False, preEnter = False, postEnter = False\<rparr>"

subsection \<open>The event emitter, pushTransition, pushAndWait, popTransition (lines 107-133)\<close>

text \<open>The handlers subscribed to \<^verbatim>\<open>'popTransition'\<close> are those of
  \<^verbatim>\<open>pushAndWait\<close>; one is known by the stack length it captured. A call of the
  handler (lines 115-120) with the length reported: on the captured length it
  unsubscribes itself and resolves its promise.\<close>

definition off :: "nat \<Rightarrow> StateMachine \<Rightarrow> StateMachine" where
  "off h m = m\<lparr>listeners := remove1 h (listeners m)\<rparr>"

definition on :: "nat \<Rightarrow> StateMachine \<Rightarrow> StateMachine" where
  "on h m = m\<lparr>listeners := listeners m @ [h]\<rparr>"

definition handler :: "nat \<Rightarrow> nat \<Rightarrow> StateMachine \<Rightarrow> StateMachine" where
  "handler stackLength newStackLength m =
     (if newStackLength = stackLength then log (EvResolve stackLength) (off stackLength m)
      else m)"

text \<open>\<^verbatim>\<open>emit\<close> calls the handlers subscribed when it starts, in the order of
  their subscription.\<close>

definition emit :: "nat \<Rightarrow> StateMachine \<Rightarrow> StateMachine" where
  "emit n m = fold (\<lambda>h. handler h n) (listeners m) (log (EvEmit n) m)"

definition pushTransition :: "string option \<Rightarrow> options \<Rightarrow> StateMachine \<Rightarrow> StateMachine" where
  "pushTransition ns args m =
     dropped (transition ns args (m\<lparr>stateStack := stateStack m @ [state m]\<rparr>))"

text \<open>\<^verbatim>\<open>pushAndWait\<close> returns the machine and the handle of the promise, which
  is the stack length captured.\<close>

definition pushAndWait ::
  "string option \<Rightarrow> options \<Rightarrow> StateMachine \<Rightarrow> StateMachine \<times> nat" where
  "pushAndWait ns args m =
     (let stackLength = length (stateStack m)
      in (pushTransition ns args (on stackLength m), stackLength))"

definition popTransition :: "StateMachine \<Rightarrow> error + StateMachine" where
  "popTransition m =
     (if length (stateStack m) < 1 then Inl EmptyStack
      else let m1 = dropped (transition (last (stateStack m)) no_options
                               (m\<lparr>stateStack := butlast (stateStack m)\<rparr>))
           in Inr (emit (length (stateStack m1)) m1))"

subsection \<open>step (lines 50-76)\<close>

text \<open>Lines 51-55. The first call sets the state and calls \<^verbatim>\<open>init\<close> and
  \<^verbatim>\<open>handleEntered\<close> of the initial state; \<^verbatim>\<open>initialized\<close> is not
  assigned here. An initial state that is not registered makes line 53 throw
  a \<^verbatim>\<open>TypeError\<close> out of \<^verbatim>\<open>step\<close>.\<close>

definition bootstrap :: "StateMachine \<Rightarrow> error + StateMachine" where
  "bootstrap m =
     (if state m = None
      then (case possibleStates m (initialState m) of
              None \<Rightarrow> Inl TypeError
            | Some obj \<Rightarrow>
                Inr (call_hook (EvHandleEntered (initialState m)) (handleEntered obj)
                      (call_hook (EvInit (initialState m)) (init obj)
                        (m\<lparr>state := Some (initialState m)\<rparr>))))
      else Inr m)"

text \<open>Lines 57-62: the queued callbacks are called in the order of the queue
  with the fixed arguments followed by those of the step; then the queue is
  emptied.\<close>

definition run_callbacks :: "val list \<Rightarrow> StateMachine \<Rightarrow> StateMachine" where
  "run_callbacks stepArgs m =
     (if length (nextStepCallbacks m) > 0
      then (fold (\<lambda>c. log (EvCallback c (stateArgs m @ stepArgs))) (nextStepCallbacks m) m)
             \<lparr>nextStepCallbacks := []\<rparr>
      else m)"

text \<open>Lines 68-75. The loop has no bound of its own; \<open>None\<close> is a loop that
  has not ended within the given number of iterations. The second argument of
  \<^verbatim>\<open>transition\<close> is the first argument of the step, a number, which supplies
  no callback.\<close>

fun execute_loop :: "nat \<Rightarrow> val list \<Rightarrow> StateMachine \<Rightarrow> (error + StateMachine) option" where
  "execute_loop 0 stepArgs m = (if transitioning m then Some (Inr m) else None)"
| "execute_loop (Suc n) stepArgs m =
     (if transitioning m then Some (Inr m)
      else (case lookup (state m) m of
              None \<Rightarrow> Some (Inl TypeError)
            | Some obj \<Rightarrow>
                let m1 = call_hook (EvExecute (prop_key (state m))) (fst (execute obj)) m;
                    ns = snd (execute obj)
                in if truthy ns
                   then execute_loop n stepArgs (dropped (transition ns no_options m1))
                   else Some (Inr m1)))"


definition step :: "nat \<Rightarrow> val list \<Rightarrow> StateMachine \<Rightarrow> (error + StateMachine) option" where
  "step fuel stepArgs m =
     (case bootstrap m of
        Inl e \<Rightarrow> Some (Inl e)
      | Inr m1 \<Rightarrow> execute_loop fuel stepArgs (run_callbacks stepArgs m1))"

subsection \<open>Example machines\<close>

text \<open>A state whose methods queue nothing and whose \<^verbatim>\<open>execute\<close> returns \<open>r\<close>.\<close>

definition plain_state :: "string option \<Rightarrow> State" where
  "plain_state r =
     \<lparr>initialized = False, init = [], handleEntered = [], handleExited = [],
      execute = ([], r)\<rparr>"

definition all_options :: options where
  "all_options = \<lparr>preExit = True, postExit = True, preEnter = True, postEnter = True\<rparr>"

text \<open>\<^verbatim>\<open>A.execute\<close> returns the name of no state.\<close>

definition stuck_machine :: StateMachine where
  "stuck_machine = new_StateMachine ''A'' [''A'' \<mapsto> plain_state (Some ''Z'')] []"

text \<open>\<^verbatim>\<open>A.execute\<close> returns \<^verbatim>\<open>'B'\<close>, \<^verbatim>\<open>B.execute\<close> returns nothing.\<close>

definition chain_machine :: StateMachine where
  "chain_machine =
     new_StateMachine ''A'' [''A'' \<mapsto> plain_state (Some ''B''), ''B'' \<mapsto> plain_state None] []"

text \<open>Neither \<^verbatim>\<open>execute\<close> returns a name.\<close>

definition idle_machine :: StateMachine where
  "idle_machine =
     new_StateMachine ''A'' [''A'' \<mapsto> plain_state None, ''B'' \<mapsto> plain_state None] []"

text \<open>The machine of a result of \<open>step\<close> or \<open>popTransition\<close>, when there is one.\<close>

definition returned :: "(error + StateMachine) option \<Rightarrow> StateMachine option" where
  "returned r = (case r of Some (Inr m) \<Rightarrow> Some m | _ \<Rightarrow> None)"

definition ok :: "error + StateMachine \<Rightarrow> StateMachine option" where
  "ok r = (case r of Inr m \<Rightarrow> Some m | Inl e \<Rightarrow> None)"

text \<open>The idle machine after its first step and a \<^verbatim>\<open>pushTransition('B')\<close> run to
  its end.\<close>

definition pushed_machine :: "StateMachine option" where
  "pushed_machine =
     map_option (drain 6 \<circ> pushTransition (Some ''B'') no_options)
       (returned (step 1 [] idle_machine))"

definition count_event :: "event \<Rightarrow> StateMachine \<Rightarrow> nat" where
  "count_event e m = count_list (trace m) e"



definition observe :: "StateMachine \<Rightarrow> string option \<times> bool \<times> event list" where
  "observe m = (state m, transitioning m, trace m)"



text \<open>The notification of the length \<open>n\<close>, delivered to the machine \<open>m\<close>,
  resolves the promise of the handler that captured \<open>h\<close>.\<close>

definition resolved_by :: "nat \<Rightarrow> StateMachine \<Rightarrow> nat \<Rightarrow> bool" where
  "resolved_by n m h = (EvResolve h \<in> set (drop (length (trace m)) (trace (emit n m))))"




text \<open>A state is registered under the key \<^verbatim>\<open>'null'\<close>.\<close>

definition null_key_machine :: StateMachine where
  "null_key_machine =
     new_StateMachine ''B'' [''B'' \<mapsto> plain_state None, ''null'' \<mapsto> plain_state None] []"




section \<open>Properties\<close>


lemmas ex_defs =
  new_StateMachine_def addStates_def plain_state_def no_options_def all_options_def

lemmas seg_defs =
  from_82_def from_88_def from_90_def from_91_def from_93_def from_100_def from_101_def
  from_102_def from_104_def continue_def

lemmas aux_defs =
  log_def call_hook_def nextStep_def truthy_def registered_def lookup_def prop_key_def
  dropped_def

lemma fold_log: "fold (\<lambda>c. log (f c)) xs m = m\<lparr>trace := trace m @ map f xs\<rparr>"
  by (induction xs arbitrary: m) (simp_all add: log_def)

lemma run_callbacks_eq:
  "run_callbacks stepArgs m =
     m\<lparr>trace := trace m @ map (\<lambda>c. EvCallback c (stateArgs m @ stepArgs)) (nextStepCallbacks m),
       nextStepCallbacks := []\<rparr>"
  by (cases m) (simp add: run_callbacks_def fold_log)

lemma fold_handler:
  "fold (\<lambda>h. handler h n) hs m =
     m\<lparr>listeners := (remove1 n ^^ count_list hs n) (listeners m),
       trace := trace m @ replicate (count_list hs n) (EvResolve n)\<rparr>"
proof (induction hs arbitrary: m)
  case Nil
  then show ?case by simp
next
  case (Cons h hs)
  then show ?case
    by (simp add: handler_def log_def off_def funpow_swap1 replicate_app_Cons_same)
qed

lemma remove1_funpow_Cons: "x \<noteq> n \<Longrightarrow> (remove1 n ^^ k) (x # xs) = x # (remove1 n ^^ k) xs"
  by (induction k arbitrary: xs) (simp_all add: funpow_swap1)

lemma remove1_all: "(remove1 n ^^ count_list xs n) xs = filter (\<lambda>h. h \<noteq> n) xs"
  by (induction xs) (simp_all add: funpow_swap1 remove1_funpow_Cons)

text \<open>An \<^verbatim>\<open>emit\<close> of the length \<open>n\<close>: the handlers that captured \<open>n\<close> resolve
  and are unsubscribed, the others stay.\<close>

lemma emit_eq:
  "emit n m = m\<lparr>listeners := filter (\<lambda>h. h \<noteq> n) (listeners m),
     trace := trace m @ EvEmit n # replicate (count_list (listeners m) n) (EvResolve n)\<rparr>"
  by (simp add: emit_def fold_handler remove1_all log_def)

subsection \<open>An unregistered name\<close>

lemma transition_unregistered:
  "\<not> registered ns m \<Longrightarrow> transition ns os m = (m, Rejected (InvalidState ns))"
  by (simp add: transition_def from_82_def)

lemma execute_loop_unregistered:
  "\<not> transitioning m \<Longrightarrow> lookup (state m) m = Some obj \<Longrightarrow>
   truthy (snd (execute obj)) \<Longrightarrow> \<not> registered (snd (execute obj)) m \<Longrightarrow>
   execute_loop n stepArgs m = None"
proof (induction n arbitrary: m)
  case 0
  then show ?case by simp
next
  case (Suc n)
  let ?m1 = "call_hook (EvExecute (prop_key (state m))) (fst (execute obj)) m"
  let ?ns = "snd (execute obj)"
  let ?m2 = "log (EvRejected (InvalidState ?ns)) ?m1"
  have unreg: "\<not> registered ?ns ?m1"
    using Suc.prems(4) by (simp add: registered_def call_hook_def log_def)
  have next_m: "dropped (transition ?ns no_options ?m1) = ?m2"
    by (simp add: transition_unregistered [OF unreg] dropped_def)
  have "execute_loop n stepArgs ?m2 = None"
  proof (rule Suc.IH)
    show "\<not> transitioning ?m2" using Suc.prems(1) by (simp add: call_hook_def log_def)
    show "lookup (state ?m2) ?m2 = Some obj"
      using Suc.prems(2) by (simp add: lookup_def call_hook_def log_def)
    show "truthy (snd (execute obj))" by (rule Suc.prems(3))
    show "\<not> registered (snd (execute obj)) ?m2"
      using Suc.prems(4) by (simp add: registered_def call_hook_def log_def)
  qed
  then show ?case
    using Suc.prems(1-3) next_m by (simp add: Let_def)
qed

text \<open>
  C2. A call of \<^verbatim>\<open>transition\<close> with a name that is not registered is rejected
  with the machine as it was (\<open>transition_unregistered\<close>). A \<^verbatim>\<open>step\<close>
  whose \<^verbatim>\<open>execute\<close> returns such a name does not fail that way: the
  rejection is dropped, \<^verbatim>\<open>transitioning\<close> is still false, and the loop calls
  \<^verbatim>\<open>execute\<close> again. On the machine whose only state returns \<^verbatim>\<open>'Z'\<close>
  the step ends within no number of iterations.
\<close>

theorem step_unregistered_never_returns: "\<forall>n. step n [] stuck_machine = None"
proof
  fix n
  let ?m = "(call_hook (EvHandleEntered ''A'') []
              (call_hook (EvInit ''A'') [] (stuck_machine\<lparr>state := Some ''A''\<rparr>)))"
  have b: "bootstrap stuck_machine = Inr ?m"
    by (simp add: bootstrap_def stuck_machine_def new_StateMachine_def addStates_def
        plain_state_def)
  have r: "run_callbacks [] ?m = ?m"
    by (simp add: run_callbacks_def stuck_machine_def new_StateMachine_def addStates_def
        aux_defs)
  have "execute_loop n [] ?m = None"
    by (rule execute_loop_unregistered [where obj = "plain_state (Some ''Z'')"])
       (simp_all add: stuck_machine_def new_StateMachine_def addStates_def aux_defs
         plain_state_def object_prototype_def)
  then show "step n [] stuck_machine = None"
    by (simp add: step_def b r)
qed

subsection \<open>The order of the hooks of a transition\<close>




subsection \<open>A step whose execute returns a state name\<close>

text \<open>From a current state \<open>A\<close> whose key is not the empty string, with no
  transition in flight, a step whose \<^verbatim>\<open>A.execute\<close> returns the name of a
  registered state \<open>B\<close> calls \<^verbatim>\<open>A.execute\<close> once, starts the transition, which
  calls \<^verbatim>\<open>A.handleExited\<close> and is suspended there, and returns. The state
  becomes \<open>B\<close> when the suspended transition is resumed after the step.\<close>

lemma step_starts_transition:
  assumes "state m = Some A" and "A \<noteq> []" and "possibleStates m A = Some a"
    and "snd (execute a) = Some B" and "B \<noteq> []" and "possibleStates m B = Some b"
    and "\<not> transitioning m" and "suspended m = []"
  shows "\<exists>m'. step (Suc n) stepArgs m = Some (Inr m') \<and>
      observe m' = (Some A, True, trace m
        @ map (\<lambda>c. EvCallback c (stateArgs m @ stepArgs)) (nextStepCallbacks m)
        @ [EvExecute A, EvHandleExited A]) \<and>
      observe (drain 2 m') = (Some B, False, trace m'
        @ (if initialized b then [] else [EvInit B]) @ [EvHandleEntered B]) \<and>
      suspended (drain 2 m') = []"
  using assms
  by (cases n)
    (simp_all add: observe_def eval_nat_numeral step_def bootstrap_def transition_def resume_def
      seg_defs aux_defs no_options_def Let_def run_callbacks_eq)

text \<open>
  C3. A step whose \<^verbatim>\<open>execute\<close> returns a state name is to make the transition
  at once and call \<^verbatim>\<open>execute\<close> of the new state in the same step, as the
  comment of lines 64-66 says. On the machine where \<^verbatim>\<open>A.execute\<close> returns
  \<^verbatim>\<open>'B'\<close> and \<^verbatim>\<open>B.execute\<close> returns nothing, the first step returns with the
  state still \<open>A\<close>: the transition is suspended at line 90, after
  \<^verbatim>\<open>A.handleExited\<close>, and \<^verbatim>\<open>B.execute\<close> has not been called.
\<close>

theorem step_chain_stays_in_A:
  "map_option state (returned (step 2 [] chain_machine)) = Some (Some ''A'') \<and>
   map_option trace (returned (step 2 [] chain_machine)) =
     Some [EvInit ''A'', EvHandleEntered ''A'', EvExecute ''A'', EvHandleExited ''A'']"
  by code_simp

subsection \<open>How often init is called\<close>

text \<open>
  C4. \<^verbatim>\<open>init\<close> is to be called at most once for a state. The first step calls
  \<^verbatim>\<open>A.init\<close> (line 53) without setting \<^verbatim>\<open>initialized\<close>, as line 98 does; so
  after the first step, a transition to \<open>B\<close> and a transition back to \<open>A\<close>,
  each run to its end, \<^verbatim>\<open>A.init\<close> has been called twice.
\<close>

theorem init_twice_after_bootstrap:
  "map_option
     (count_event (EvInit ''A'') \<circ> drain 6 \<circ> fst \<circ> transition (Some ''A'') no_options \<circ>
      drain 6 \<circ> fst \<circ> transition (Some ''B'') no_options)
     (returned (step 1 [] idle_machine)) = Some 2"
  by code_simp

subsection \<open>popTransition\<close>

lemma transition_frame:
  "\<exists>pre. trace (dropped (transition ns os m)) = trace m @ pre \<and>
     stateStack (dropped (transition ns os m)) = stateStack m \<and>
     listeners (dropped (transition ns os m)) = listeners m"
  by (auto simp add: transition_def seg_defs log_def call_hook_def dropped_def Let_def
      split: option.splits if_splits)

text \<open>
  C8 (as amended). Every successful \<^verbatim>\<open>popTransition\<close> (one on a stack that is
  not empty) emits its notification with the length of the stack after the
  pop, as the last thing it does. It does not wait for the transition back to
  complete. When the popped key holds a state, and the current state holds
  one if its key is truthy, the notification is emitted while the transition
  is suspended at its first \<^verbatim>\<open>await\<close> and \<^verbatim>\<open>transitioning\<close> is still true: if
  the current key is truthy, only \<^verbatim>\<open>handleExited\<close> of the current state has
  been called and the state is not yet reassigned; otherwise (the current
  state is \<^verbatim>\<open>null\<close> or the empty string) the state has been reassigned and
  \<^verbatim>\<open>init\<close> (if not initialized) and \<^verbatim>\<open>handleEntered\<close> of the popped state
  have been called, \<^verbatim>\<open>handleEntered\<close> being still awaited.
\<close>

theorem popTransition_emits_early:
  assumes "stateStack m = stk @ [popped]"
  shows "\<exists>m' pre. popTransition m = Inr m' \<and> stateStack m' = stk \<and>
     trace m' = trace m @ pre @ EvEmit (length stk)
        # replicate (count_list (listeners m) (length stk)) (EvResolve (length stk)) \<and>
     (\<forall>a. lookup popped m = Some a \<and> (truthy (state m) \<longrightarrow> lookup (state m) m \<noteq> None) \<longrightarrow>
        transitioning m' \<and>
        map point (suspended m') = map point (suspended m)
          @ [if truthy (state m) then AwHandleExited else AwHandleEntered] \<and>
        state m' = (if truthy (state m) then state m else popped) \<and>
        pre = (if truthy (state m) then [EvHandleExited (prop_key (state m))]
               else (if initialized a then [] else [EvInit (prop_key popped)])
                    @ [EvHandleEntered (prop_key popped)]))"
proof -
  let ?m0 = "m\<lparr>stateStack := stk\<rparr>"
  let ?m1 = "dropped (transition popped no_options ?m0)"
  obtain pre where tr: "trace ?m1 = trace m @ pre" and st: "stateStack ?m1 = stk"
    and li: "listeners ?m1 = listeners m"
    using transition_frame [of popped no_options ?m0] by auto
  have pop: "popTransition m = Inr (emit (length stk) ?m1)"
    using assms st by (simp add: popTransition_def)
  have "\<forall>a. lookup popped m = Some a \<and> (truthy (state m) \<longrightarrow> lookup (state m) m \<noteq> None) \<longrightarrow>
        transitioning ?m1 \<and>
        map point (suspended ?m1) = map point (suspended m)
          @ [if truthy (state m) then AwHandleExited else AwHandleEntered] \<and>
        state ?m1 = (if truthy (state m) then state m else popped) \<and>
        trace ?m1 = trace m @ (if truthy (state m) then [EvHandleExited (prop_key (state m))]
               else (if initialized a then [] else [EvInit (prop_key popped)])
                    @ [EvHandleEntered (prop_key popped)])"
    by (auto simp add: transition_def seg_defs log_def call_hook_def dropped_def Let_def
        no_options_def registered_def lookup_def)
  then show ?thesis
    using pop tr st li by (auto simp add: emit_eq)
qed

theorem popTransition_emits_early_witness:
  "stateStack (idle_machine\<lparr>state := Some ''B'', stateStack := [Some ''A'']\<rparr>) = [] @ [Some ''A''] \<and>
   lookup (Some ''A'') (idle_machine\<lparr>state := Some ''B'', stateStack := [Some ''A'']\<rparr>) =
     Some (plain_state None) \<and>
   truthy (state (idle_machine\<lparr>state := Some ''B'', stateStack := [Some ''A'']\<rparr>)) \<and>
   lookup (state (idle_machine\<lparr>state := Some ''B'', stateStack := [Some ''A'']\<rparr>))
     (idle_machine\<lparr>state := Some ''B'', stateStack := [Some ''A'']\<rparr>) \<noteq> None \<and>
   (\<exists>m'. popTransition (idle_machine\<lparr>state := Some ''B'', stateStack := [Some ''A'']\<rparr>) = Inr m' \<and>
      stateStack m' = [] \<and>
      observe m' = (Some ''B'', True, [EvHandleExited ''B'', EvEmit 0]) \<and>
      map point (suspended m') = [AwHandleExited])"
proof -
  let ?m = "idle_machine\<lparr>state := Some ''B'', stateStack := [Some ''A'']\<rparr>"
  have h: "stateStack ?m = [] @ [Some ''A'']" by simp
  have a: "lookup (Some ''A'') ?m = Some (plain_state None)"
    and t: "truthy (state ?m)" and c: "lookup (state ?m) ?m \<noteq> None"
    and l: "listeners ?m = []" and e: "trace ?m = []" and s: "suspended ?m = []"
    by (simp_all add: idle_machine_def ex_defs lookup_def prop_key_def truthy_def)
  from popTransition_emits_early [OF h] obtain m' pre where
    p: "popTransition ?m = Inr m'" and k: "stateStack m' = []"
    and tr: "trace m' = trace ?m @ pre @ EvEmit (length ([] :: string option list))
        # replicate (count_list (listeners ?m) (length ([] :: string option list)))
            (EvResolve (length ([] :: string option list)))"
    and r: "\<forall>a. lookup (Some ''A'') ?m = Some a \<and>
          (truthy (state ?m) \<longrightarrow> lookup (state ?m) ?m \<noteq> None) \<longrightarrow>
        transitioning m' \<and>
        map point (suspended m') = map point (suspended ?m)
          @ [if truthy (state ?m) then AwHandleExited else AwHandleEntered] \<and>
        state m' = (if truthy (state ?m) then state ?m else Some ''A'') \<and>
        pre = (if truthy (state ?m) then [EvHandleExited (prop_key (state ?m))]
               else (if initialized a then [] else [EvInit (prop_key (Some ''A''))])
                    @ [EvHandleEntered (prop_key (Some ''A''))])"
    by blast
  from r [THEN spec, of "plain_state None"] a t c
  have "transitioning m' \<and> map point (suspended m') = [AwHandleExited] \<and>
      state m' = Some ''B'' \<and> pre = [EvHandleExited ''B'']"
    using s by (simp add: prop_key_def)
  then have "popTransition ?m = Inr m' \<and> stateStack m' = [] \<and>
      observe m' = (Some ''B'', True, [EvHandleExited ''B'', EvEmit 0]) \<and>
      map point (suspended m') = [AwHandleExited]"
    using p k tr l e by (simp add: observe_def)
  then have "\<exists>m'. popTransition ?m = Inr m' \<and> stateStack m' = [] \<and>
      observe m' = (Some ''B'', True, [EvHandleExited ''B'', EvEmit 0]) \<and>
      map point (suspended m') = [AwHandleExited]"
    by (rule exI)
  with h a t c show ?thesis by (intro conjI)
qed

text \<open>The claim as stated fails: after the first step and a push to \<open>B\<close>, the
  pop has emitted its notification when it returns, with the state still
  \<open>B\<close> and no enter hook of \<open>A\<close> run; \<^verbatim>\<open>A.handleEntered\<close> follows the
  notification when the transition is resumed.\<close>

theorem popTransition_emit_counterexample:
  "map_option observe (Option.bind pushed_machine (ok \<circ> popTransition)) =
     Some (Some ''B'', True,
       [EvInit ''A'', EvHandleEntered ''A'', EvExecute ''A'', EvHandleExited ''A'',
        EvInit ''B'', EvHandleEntered ''B'', EvHandleExited ''B'', EvEmit 0]) \<and>
   map_option (observe \<circ> drain 6) (Option.bind pushed_machine (ok \<circ> popTransition)) =
     Some (Some ''A'', False,
       [EvInit ''A'', EvHandleEntered ''A'', EvExecute ''A'', EvHandleExited ''A'',
        EvInit ''B'', EvHandleEntered ''B'', EvHandleExited ''B'', EvEmit 0,
        EvInit ''A'', EvHandleEntered ''A''])"
  by code_simp

text \<open>
  C10 (as amended). A \<^verbatim>\<open>pushTransition\<close> before the first step (the state is
  \<^verbatim>\<open>null\<close>) pushes \<^verbatim>\<open>null\<close>. With \<^verbatim>\<open>null\<close> on top of the stack, the
  \<^verbatim>\<open>popTransition\<close> calls \<^verbatim>\<open>transition(null)\<close>; when no state is registered
  under the key \<^verbatim>\<open>'null'\<close>, that call is rejected with
  \<^verbatim>\<open>Invalid state null\<close> and the state stays what it was.
\<close>

theorem push_before_first_step:
  assumes "state m = None"
  shows "stateStack (pushTransition ns os m) = stateStack m @ [None] \<and>
    (\<forall>m1. stateStack m1 = stateStack m @ [None] \<and> possibleStates m1 ''null'' = None \<longrightarrow>
       transition None no_options (m1\<lparr>stateStack := stateStack m\<rparr>) =
         (m1\<lparr>stateStack := stateStack m\<rparr>, Rejected (InvalidState None)) \<and>
       (\<exists>m'. popTransition m1 = Inr m' \<and> state m' = state m1 \<and>
          stateStack m' = stateStack m \<and>
          trace m' = trace m1 @ [EvRejected (InvalidState None), EvEmit (length (stateStack m))]
            @ replicate (count_list (listeners m1) (length (stateStack m)))
                (EvResolve (length (stateStack m)))))"
proof (intro conjI allI impI)
  show "stateStack (pushTransition ns os m) = stateStack m @ [None]"
    using transition_frame [of ns os "m\<lparr>stateStack := stateStack m @ [state m]\<rparr>"] assms
    by (auto simp add: pushTransition_def)
next
  fix m1 :: StateMachine
  assume a: "stateStack m1 = stateStack m @ [None] \<and> possibleStates m1 ''null'' = None"
  then have u: "\<not> registered None (m1\<lparr>stateStack := stateStack m\<rparr>)"
    by (simp add: registered_def prop_key_def object_prototype_def)
  show "transition None no_options (m1\<lparr>stateStack := stateStack m\<rparr>) =
         (m1\<lparr>stateStack := stateStack m\<rparr>, Rejected (InvalidState None))"
    by (rule transition_unregistered [OF u])
  then show "\<exists>m'. popTransition m1 = Inr m' \<and> state m' = state m1 \<and>
          stateStack m' = stateStack m \<and>
          trace m' = trace m1 @ [EvRejected (InvalidState None), EvEmit (length (stateStack m))]
            @ replicate (count_list (listeners m1) (length (stateStack m)))
                (EvResolve (length (stateStack m)))"
    using a by (simp add: popTransition_def dropped_def emit_eq log_def)
qed

theorem push_before_first_step_witness:
  "state idle_machine = None \<and>
   stateStack (pushTransition (Some ''B'') no_options idle_machine) = [None] \<and>
   possibleStates (pushTransition (Some ''B'') no_options idle_machine) ''null'' = None \<and>
   (\<exists>m'. popTransition (pushTransition (Some ''B'') no_options idle_machine) = Inr m' \<and>
      state m' = Some ''B'' \<and> stateStack m' = [] \<and>
      trace m' = [EvInit ''B'', EvHandleEntered ''B'', EvRejected (InvalidState None), EvEmit 0])"
proof -
  have s: "state idle_machine = None" and k: "stateStack idle_machine = []"
    by (simp_all add: idle_machine_def ex_defs)
  have p: "state (pushTransition (Some ''B'') no_options idle_machine) = Some ''B'' \<and>
      trace (pushTransition (Some ''B'') no_options idle_machine) =
        [EvInit ''B'', EvHandleEntered ''B''] \<and>
      listeners (pushTransition (Some ''B'') no_options idle_machine) = [] \<and>
      possibleStates (pushTransition (Some ''B'') no_options idle_machine) ''null'' = None"
    by (simp add: idle_machine_def ex_defs pushTransition_def transition_def seg_defs aux_defs)
  note t = push_before_first_step [OF s, of "Some ''B''" no_options]
  have q: "stateStack (pushTransition (Some ''B'') no_options idle_machine) = [None]"
    using t k by simp
  from t have "\<forall>m1. stateStack m1 = stateStack idle_machine @ [None] \<and>
        possibleStates m1 ''null'' = None \<longrightarrow>
      (\<exists>m'. popTransition m1 = Inr m' \<and> state m' = state m1 \<and>
          stateStack m' = stateStack idle_machine \<and>
          trace m' = trace m1
            @ [EvRejected (InvalidState None), EvEmit (length (stateStack idle_machine))]
            @ replicate (count_list (listeners m1) (length (stateStack idle_machine)))
                (EvResolve (length (stateStack idle_machine))))"
    by blast
  from this [THEN spec, of "pushTransition (Some ''B'') no_options idle_machine"]
  show ?thesis using s k p q by simp
qed

text \<open>The claim as stated fails when a state is registered under the key
  \<^verbatim>\<open>'null'\<close>: line 82 finds that key, nothing is rejected, and the pop ends
  in the state \<^verbatim>\<open>null\<close> after \<^verbatim>\<open>init\<close> and \<^verbatim>\<open>handleEntered\<close> of the state
  registered under \<^verbatim>\<open>'null'\<close>.\<close>

theorem push_before_first_step_counterexample:
  "(map_option observe \<circ> ok \<circ> popTransition \<circ> drain 6 \<circ>
      pushTransition (Some ''B'') no_options) null_key_machine =
     Some (Some ''B'', True,
       [EvInit ''B'', EvHandleEntered ''B'', EvHandleExited ''B'', EvEmit 0]) \<and>
   (map_option (observe \<circ> drain 6) \<circ> ok \<circ> popTransition \<circ> drain 6 \<circ>
      pushTransition (Some ''B'') no_options) null_key_machine =
     Some (None, False,
       [EvInit ''B'', EvHandleEntered ''B'', EvHandleExited ''B'', EvEmit 0,
        EvInit ''null'', EvHandleEntered ''null''])"
  by code_simp

subsection \<open>A suspended transition run to its end\<close>






subsection \<open>Push and pop\<close>



subsection \<open>pushAndWait\<close>

lemma transition_listeners: "listeners (fst (transition ns os m)) = listeners m"
  by (auto simp add: transition_def seg_defs aux_defs Let_def split: option.splits if_splits)

lemma pushTransition_listeners: "listeners (pushTransition ns os m) = listeners m"
  using transition_listeners [of ns os "m\<lparr>stateStack := stateStack m @ [state m]\<rparr>"]
  by (cases "transition ns os (m\<lparr>stateStack := stateStack m @ [state m]\<rparr>)")
    (auto simp add: pushTransition_def dropped_def log_def split: outcome.splits)

text \<open>
  C7. \<^verbatim>\<open>pushAndWait\<close> subscribes a handler that captured the length of the
  stack before the push, and returns its promise. On any later machine where
  the handler is subscribed, a notification resolves the promise exactly if
  the length it reports is the captured one; a notification of another length
  leaves the handler subscribed, and the one that resolves it unsubscribes it.
\<close>

theorem pushAndWait_resolves_at_depth:
  "snd (pushAndWait ns os m) = length (stateStack m) \<and>
   listeners (fst (pushAndWait ns os m)) = listeners m @ [length (stateStack m)] \<and>
   (\<forall>m' n. length (stateStack m) \<in> set (listeners m') \<longrightarrow>
      resolved_by n m' (length (stateStack m)) = (n = length (stateStack m)) \<and>
      (n \<noteq> length (stateStack m) \<longrightarrow> length (stateStack m) \<in> set (listeners (emit n m'))) \<and>
      (n = length (stateStack m) \<longrightarrow> length (stateStack m) \<notin> set (listeners (emit n m'))))"
  by (auto simp add: pushAndWait_def Let_def pushTransition_listeners on_def resolved_by_def
      emit_eq count_list_0_iff)

theorem pushAndWait_resolves_at_depth_witness:
  "0 \<in> set (listeners (fst (pushAndWait (Some ''B'') no_options idle_machine))) \<and>
   \<not> resolved_by 1 (fst (pushAndWait (Some ''B'') no_options idle_machine)) 0 \<and>
   0 \<in> set (listeners (emit 1 (fst (pushAndWait (Some ''B'') no_options idle_machine)))) \<and>
   resolved_by 0 (fst (pushAndWait (Some ''B'') no_options idle_machine)) 0 \<and>
   0 \<notin> set (listeners (emit 0 (fst (pushAndWait (Some ''B'') no_options idle_machine))))"
proof -
  let ?m1 = "fst (pushAndWait (Some ''B'') no_options idle_machine)"
  have k: "length (stateStack idle_machine) = 0" and l: "listeners idle_machine = []"
    by (simp_all add: idle_machine_def ex_defs)
  note t = pushAndWait_resolves_at_depth [of "Some ''B''" no_options idle_machine]
  have sub: "0 \<in> set (listeners ?m1)" using t k l by simp
  from t have a: "\<forall>m' n. 0 \<in> set (listeners m') \<longrightarrow>
      resolved_by n m' 0 = (n = 0) \<and>
      (n \<noteq> 0 \<longrightarrow> 0 \<in> set (listeners (emit n m'))) \<and>
      (n = 0 \<longrightarrow> 0 \<notin> set (listeners (emit n m')))"
    using k by simp
  from a [THEN spec, THEN spec, of ?m1 1] a [THEN spec, THEN spec, of ?m1 0] sub
  show ?thesis by simp
qed

subsection \<open>The first step\<close>

lemma execute_loop_transitioning: "transitioning m \<Longrightarrow> execute_loop n a m = Some (Inr m)"
  by (cases n) simp_all

text \<open>
  C5. The constructor calls no method of a state and leaves the state
  \<^verbatim>\<open>null\<close>. The first step (of a machine whose initial state \<open>A\<close> is
  registered and returns from \<^verbatim>\<open>execute\<close> nothing or a registered name) sets
  the state to \<open>A\<close> and calls \<^verbatim>\<open>A.init\<close>, then \<^verbatim>\<open>A.handleEntered\<close>, then the
  callbacks these two queued, then \<^verbatim>\<open>A.execute\<close>: no exit hook comes before
  \<^verbatim>\<open>execute\<close>, and neither \<^verbatim>\<open>A.init\<close> nor \<^verbatim>\<open>A.handleEntered\<close> is called
  again in the step.
\<close>

theorem first_step_bootstrap:
  assumes "states A = Some obj"
    and "\<not> truthy (snd (execute obj)) \<or>
         registered (snd (execute obj)) (new_StateMachine A states args)"
  shows "observe (new_StateMachine A states args) = (None, False, []) \<and>
    (\<exists>mb. bootstrap (new_StateMachine A states args) = Inr mb \<and>
       observe mb = (Some A, False, [EvInit A, EvHandleEntered A])) \<and>
    (\<exists>m' rest. step (Suc n) stepArgs (new_StateMachine A states args) = Some (Inr m') \<and>
       trace m' = [EvInit A, EvHandleEntered A]
         @ map (\<lambda>c. EvCallback c (args @ stepArgs)) (init obj @ handleEntered obj)
         @ [EvExecute A] @ rest \<and>
       EvInit A \<notin> set rest \<and> EvHandleEntered A \<notin> set rest \<and> EvExecute A \<notin> set rest)"
proof (intro conjI)
  show "observe (new_StateMachine A states args) = (None, False, [])"
    by (simp add: observe_def new_StateMachine_def addStates_def)
  show "\<exists>mb. bootstrap (new_StateMachine A states args) = Inr mb \<and>
       observe mb = (Some A, False, [EvInit A, EvHandleEntered A])"
    using assms(1)
    by (simp add: observe_def new_StateMachine_def addStates_def bootstrap_def aux_defs)
  show "\<exists>m' rest. step (Suc n) stepArgs (new_StateMachine A states args) = Some (Inr m') \<and>
       trace m' = [EvInit A, EvHandleEntered A]
         @ map (\<lambda>c. EvCallback c (args @ stepArgs)) (init obj @ handleEntered obj)
         @ [EvExecute A] @ rest \<and>
       EvInit A \<notin> set rest \<and> EvHandleEntered A \<notin> set rest \<and> EvExecute A \<notin> set rest"
  proof (cases "snd (execute obj)")
    case None
    then show ?thesis
      using assms(1)
      by (simp add: step_def bootstrap_def new_StateMachine_def addStates_def run_callbacks_eq
          aux_defs Let_def)
  next
    case (Some B)
    then show ?thesis
      using assms
      by (auto simp add: step_def bootstrap_def new_StateMachine_def addStates_def
          run_callbacks_eq aux_defs Let_def transition_def seg_defs no_options_def
          execute_loop_transitioning split: option.splits)
  qed
qed

theorem first_step_bootstrap_witness:
  "[''A'' \<mapsto> plain_state None] ''A'' = Some (plain_state None) \<and>
   \<not> truthy (snd (execute (plain_state None))) \<and>
   observe (new_StateMachine ''A'' [''A'' \<mapsto> plain_state None] []) = (None, False, []) \<and>
   (\<exists>m' rest. step 1 [] (new_StateMachine ''A'' [''A'' \<mapsto> plain_state None] []) = Some (Inr m') \<and>
       trace m' = [EvInit ''A'', EvHandleEntered ''A'', EvExecute ''A''] @ rest \<and>
       EvInit ''A'' \<notin> set rest \<and> EvHandleEntered ''A'' \<notin> set rest \<and>
       EvExecute ''A'' \<notin> set rest)"
proof -
  have h1: "[''A'' \<mapsto> plain_state None] ''A'' = Some (plain_state None)" by simp
  have h2: "\<not> truthy (snd (execute (plain_state None)))"
    by (simp add: truthy_def plain_state_def)
  from first_step_bootstrap
    [of "[''A'' \<mapsto> plain_state None]" "''A''" "plain_state None" "[]" 0 "[]"] h1 h2
  show ?thesis by (simp add: plain_state_def)
qed

subsection \<open>Callbacks queued for the next step\<close>














end
